theory Spec2Isabelle
  imports Main
begin

section \<open>Rasters, files and errors\<close>

text \<open>
  The script \<open>ConvertRMMVTileFormatToTiledAutoTile.py\<close> opens one image, allocates an RGB
  canvas, crops ten boxes out of the image, pastes each crop into the canvas and saves the
  canvas. A raster is its two dimensions and its pixels; a pixel read is only meaningful
  inside the dimensions, which \<open>pixel_at\<close> makes explicit. A box is the imaging library's
  \<open>(left, upper, right, lower)\<close>.

  The canvas is RGB, and \<open>paste\<close> converts the raster it is given to the canvas's mode,
  pixel by pixel. So \<open>pixels\<close> holds every pixel of an image as that conversion reads it,
  a triple of integers, whatever the mode of the file. One more value of the file's mode
  reaches the canvas: \<open>crop\<close> fills the part of a box outside the image with the all-zero
  pixel of the image's own mode, before \<open>paste\<close> converts. \<open>zero_fill\<close> is that pixel as the
  conversion reads it: (0,0,0) for an RGB, RGBA or greyscale image, entry 0 of the palette
  for a palette image, white for a CMYK image.
\<close>

type_synonym colour = "int \<times> int \<times> int"

type_synonym box = "int \<times> int \<times> int \<times> int"

record image =
  xsize :: int
  ysize :: int
  pixels :: "int \<Rightarrow> int \<Rightarrow> colour"
  zero_fill :: colour

datatype error =
    FileNotFoundError
  | UnidentifiedImageError
  | PermissionError
  | IndexError
  | ValueError string

datatype file_format = PNG | JPEG | BMP | GIF

datatype stored_file = ImageFile file_format image | OtherFile

text \<open>
  What a run can see of the disk: the file stored under each name, as a decoded image
  with its format or as something that is no image, and the names that cannot be written.
\<close>

record filesystem =
  files :: "string \<rightharpoonup> stored_file"
  read_only :: "string \<Rightarrow> bool"

definition in_bounds :: "image \<Rightarrow> int \<Rightarrow> int \<Rightarrow> bool" where
  "in_bounds im x y \<longleftrightarrow> 0 \<le> x \<and> x < xsize im \<and> 0 \<le> y \<and> y < ysize im"

definition pixel_at :: "image \<Rightarrow> int \<Rightarrow> int \<Rightarrow> colour option" where
  "pixel_at im x y = (if in_bounds im x y then Some (pixels im x y) else None)"

definition inside :: "box \<Rightarrow> int \<Rightarrow> int \<Rightarrow> bool" where
  "inside b x y = (case b of (l, t, r, lo) \<Rightarrow> l \<le> x \<and> x < r \<and> t \<le> y \<and> y < lo)"

definition box_left :: "box \<Rightarrow> int" where
  "box_left b = (case b of (l, t, r, lo) \<Rightarrow> l)"

definition box_top :: "box \<Rightarrow> int" where
  "box_top b = (case b of (l, t, r, lo) \<Rightarrow> t)"

definition box_width :: "box \<Rightarrow> int" where
  "box_width b = (case b of (l, t, r, lo) \<Rightarrow> r - l)"

definition box_height :: "box \<Rightarrow> int" where
  "box_height b = (case b of (l, t, r, lo) \<Rightarrow> lo - t)"

section \<open>The imaging-library calls of the script\<close>

text \<open>
  \<open>Image.open(path)\<close>: the decoded raster of the file at \<open>path\<close>; a missing path
  (also the empty path of a cancelled dialog) and a file that is no image raise.
\<close>

definition Image_open :: "filesystem \<Rightarrow> string \<Rightarrow> error + image" where
  "Image_open fs path =
     (case files fs path of
        None \<Rightarrow> Inl FileNotFoundError
      | Some OtherFile \<Rightarrow> Inl UnidentifiedImageError
      | Some (ImageFile fmt im) \<Rightarrow> Inr im)"

text \<open>
  \<open>Image.new('RGB', size, color)\<close>: a raster of the given size, every pixel the given
  colour; a negative dimension raises.
\<close>

definition Image_new :: "int \<times> int \<Rightarrow> colour \<Rightarrow> error + image" where
  "Image_new sz color =
     (if fst sz < 0 \<or> snd sz < 0
      then Inl (ValueError ''Width and height must be >= 0'')
      else Inr \<lparr>xsize = fst sz, ysize = snd sz, pixels = (\<lambda>x y. color),
                zero_fill = (0, 0, 0)\<rparr>)"

text \<open>
  \<open>im.crop(box)\<close>: a new raster of the box's own width and height, in the image's mode.
  The library raises only for a box whose right edge is left of its left edge, or whose
  lower edge is above its upper edge; a box that reaches outside the image is not an
  error: the part outside the image is filled with the zero pixel of the image's mode.
\<close>

definition crop :: "image \<Rightarrow> box \<Rightarrow> error + image" where
  "crop im b =
     (case b of (l, t, r, lo) \<Rightarrow>
        if r < l then Inl (ValueError ''Coordinate right is less than left'')
        else if lo < t then Inl (ValueError ''Coordinate lower is less than upper'')
        else Inr \<lparr>xsize = r - l, ysize = lo - t,
                  pixels = (\<lambda>x y. if in_bounds im (x + l) (y + t)
                                    then pixels im (x + l) (y + t) else zero_fill im),
                  zero_fill = zero_fill im\<rparr>)"

text \<open>
  \<open>canvas.paste(im, box)\<close> with a four-sided box and no mask: the box must have exactly the
  pasted raster's width and height, otherwise the library raises
  \<open>ValueError: images do not match\<close>; then the raster is copied with its top-left pixel at
  the box's top-left corner, clipped to the canvas. The canvas keeps its size.
\<close>

definition paste :: "image \<Rightarrow> image \<Rightarrow> box \<Rightarrow> error + image" where
  "paste canvas im b =
     (case b of (l, t, r, lo) \<Rightarrow>
        if r - l \<noteq> xsize im \<or> lo - t \<noteq> ysize im
        then Inl (ValueError ''images do not match'')
        else Inr (canvas\<lparr>pixels :=
                    (\<lambda>x y. if inside b x y \<and> in_bounds canvas x y
                            then pixels im (x - l) (y - t) else pixels canvas x y)\<rparr>))"

text \<open>
  \<open>canvas.save(name)\<close>: the format is looked up from the lower-cased extension of the
  name (\<open>os.path.splitext\<close>: the text from the last dot of the last path component, unless
  only dots precede it); an unknown extension raises. The file is opened for writing and
  truncated, so whatever the path held before is replaced. The table below lists the
  extensions of four of the library's formats.
\<close>

definition lower_char :: "char \<Rightarrow> char" where
  "lower_char c =
     (let n = (of_char c :: nat) in if 65 \<le> n \<and> n \<le> 90 then char_of (n + 32) else c)"

definition lower :: "string \<Rightarrow> string" where
  "lower s = map lower_char s"

definition splitext_ext :: "string \<Rightarrow> string" where
  "splitext_ext p =
     (let base_r = takeWhile (\<lambda>c. c \<noteq> CHR ''/'') (rev p);
          ext_r = takeWhile (\<lambda>c. c \<noteq> CHR ''.'') base_r;
          stem_r = drop (Suc (length ext_r)) base_r
      in if CHR ''.'' \<in> set base_r \<and> (\<exists>c \<in> set stem_r. c \<noteq> CHR ''.'')
         then CHR ''.'' # rev ext_r else [])"

definition EXTENSION :: "string \<rightharpoonup> file_format" where
  "EXTENSION =
     [''.png'' \<mapsto> PNG, ''.jpg'' \<mapsto> JPEG, ''.jpeg'' \<mapsto> JPEG, ''.bmp'' \<mapsto> BMP,
      ''.gif'' \<mapsto> GIF]"

definition save :: "image \<Rightarrow> string \<Rightarrow> filesystem \<Rightarrow> error + filesystem" where
  "save im fp fs =
     (case EXTENSION (lower (splitext_ext fp)) of
        None \<Rightarrow> Inl (ValueError ''unknown file extension'')
      | Some fmt \<Rightarrow>
          if read_only fs fp then Inl PermissionError
          else Inr (fs\<lparr>files := (files fs)(fp \<mapsto> ImageFile fmt im)\<rparr>))"

section \<open>The script\<close>

text \<open>
  The constants of lines 14 to 42 under their own names. The hidden window, the prompt
  printed on the console and the file dialog are left out: the path that the dialog
  returns is the argument of \<open>main\<close> below.
\<close>

definition muted :: colour where "muted = (10, 10, 10)"

definition final_size :: "int \<times> int" where "final_size = (192, 96)"

definition c_lor :: box where "c_lor = (48, 0, 72, 24)"
definition c_lol :: box where "c_lol = (72, 0, 96, 24)"
definition c_upr :: box where "c_upr = (48, 24, 72, 48)"
definition c_upl :: box where "c_upl = (72, 24, 96, 48)"
definition e_up :: box where "e_up = (24, 120, 72, 144)"
definition e_lo :: box where "e_lo = (24, 48, 72, 72)"
definition e_ri :: box where "e_ri = (72, 72, 96, 120)"
definition e_le :: box where "e_le = (0, 72, 24, 120)"
definition center :: box where "center = (24, 72, 72, 120)"
definition retain :: box where "retain = (0, 48, 96, 144)"

definition fc_lor :: box where "fc_lor = (72, 72, 96, 96)"
definition fc_lol :: box where "fc_lol = (0, 72, 24, 96)"
definition fc_upr :: box where "fc_upr = (72, 0, 96, 24)"
definition fc_upl :: box where "fc_upl = (0, 0, 24, 24)"
definition fe_up :: box where "fe_up = (24, 0, 72, 24)"
definition fe_lo :: box where "fe_lo = (24, 72, 72, 96)"
definition fe_ri :: box where "fe_ri = (0, 24, 24, 72)"
definition fe_le :: box where "fe_le = (72, 24, 96, 72)"
definition fcenter :: box where "fcenter = (24, 24, 72, 72)"
definition fretain :: box where "fretain = (96, 0, 192, 96)"

definition regions :: "box list" where
  "regions = [c_lor, c_lol, c_upr, c_upl, e_up, e_lo, e_ri, e_le, center, retain]"

definition fregions :: "box list" where
  "fregions = [fc_lor, fc_lol, fc_upr, fc_upl, fe_up, fe_lo, fe_ri, fe_le, fcenter, fretain]"

text \<open>
  The body of the loop, lines 45 and 46, for one source box and one destination box:
  \<open>chunks[i] = start_im.crop(regions[i])\<close>, then \<open>final_im.paste(chunks[i], fregions[i])\<close>.
  An exception of either call ends the run; \<open>chunks[i]\<close> only holds the crop between
  the two calls.
\<close>

definition crop_paste :: "image \<Rightarrow> box \<Rightarrow> box \<Rightarrow> image \<Rightarrow> error + image" where
  "crop_paste start_im s d final_im =
     (case crop start_im s of
        Inl e \<Rightarrow> Inl e
      | Inr chunk \<Rightarrow> paste final_im chunk d)"

text \<open>\<open>chunks = list(range(10))\<close>: ten slots, one for each crop.\<close>

definition chunks :: "nat list" where
  "chunks = [0..<10]"

text \<open>
  The loop \<open>for i in range(len(regions))\<close>, run over a list of indices; an index past the
  end of \<open>regions\<close>, \<open>fregions\<close> or \<open>chunks\<close> raises. Only the length of \<open>chunks\<close>
  matters: each of its slots is written before it is read.
\<close>

fun paste_loop :: "image \<Rightarrow> nat list \<Rightarrow> image \<Rightarrow> error + image" where
  "paste_loop start_im [] final_im = Inr final_im"
| "paste_loop start_im (i # is) final_im =
     (if i < length regions \<and> i < length chunks \<and> i < length fregions then
        (case crop_paste start_im (regions ! i) (fregions ! i) final_im of
           Inl e \<Rightarrow> Inl e
         | Inr final_im' \<Rightarrow> paste_loop start_im is final_im')
      else Inl IndexError)"

text \<open>Lines 14 to 46: from the opened image to the finished canvas.\<close>

definition convert :: "image \<Rightarrow> error + image" where
  "convert start_im =
     (case Image_new final_size muted of
        Inl e \<Rightarrow> Inl e
      | Inr final_im \<Rightarrow> paste_loop start_im [0..<length regions] final_im)"

text \<open>The whole run, from the path the dialog returned to the file system it leaves.\<close>

definition main :: "string \<Rightarrow> filesystem \<Rightarrow> error + filesystem" where
  "main path fs =
     (case Image_open fs path of
        Inl e \<Rightarrow> Inl e
      | Inr start_im \<Rightarrow>
          (case convert start_im of
             Inl e \<Rightarrow> Inl e
           | Inr final_im \<Rightarrow> save final_im ''converted.png'' fs))"

section \<open>Notions the properties are stated with\<close>

text \<open>
  The colour that the crop of box \<open>s\<close>, pasted at box \<open>d\<close>, puts at canvas position
  \<open>(x, y)\<close>: the pixel of the opened image at the same offset from the top-left corner of
  \<open>s\<close> as \<open>(x, y)\<close> has from the top-left corner of \<open>d\<close>, and the image's zero fill where
  that position is outside the opened image.
\<close>

definition moved_pixel :: "image \<Rightarrow> box \<Rightarrow> box \<Rightarrow> int \<Rightarrow> int \<Rightarrow> colour" where
  "moved_pixel im s d x y =
     (let sx = x - box_left d + box_left s; sy = y - box_top d + box_top s
      in if in_bounds im sx sy then pixels im sx sy else zero_fill im)"

text \<open>The canvas after the loop body has run for index \<open>i\<close>.\<close>

definition stamp :: "image \<Rightarrow> nat \<Rightarrow> image \<Rightarrow> image" where
  "stamp im i c =
     c\<lparr>pixels := (\<lambda>x y. if inside (fregions ! i) x y \<and> in_bounds c x y
                        then moved_pixel im (regions ! i) (fregions ! i) x y
                        else pixels c x y)\<rparr>"

text \<open>A box lies within a coordinate space of the given width and height.\<close>

definition box_within :: "box \<Rightarrow> int \<Rightarrow> int \<Rightarrow> bool" where
  "box_within b w h =
     (case b of (l, t, r, lo) \<Rightarrow> 0 \<le> l \<and> l \<le> r \<and> r \<le> w \<and> 0 \<le> t \<and> t \<le> lo \<and> lo \<le> h)"

text \<open>
  The region table as the specification prints it, and the conversion as the specification
  words it: allocate the 192 by 96 canvas filled with (10,10,10), then crop and paste for
  each pair of the table in order.
\<close>

definition spec_table :: "(box \<times> box) list" where
  "spec_table =
     [((48, 0, 72, 24), (72, 72, 96, 96)),
      ((72, 0, 96, 24), (0, 72, 24, 96)),
      ((48, 24, 72, 48), (72, 0, 96, 24)),
      ((72, 24, 96, 48), (0, 0, 24, 24)),
      ((24, 120, 72, 144), (24, 0, 72, 24)),
      ((24, 48, 72, 72), (24, 72, 72, 96)),
      ((72, 72, 96, 120), (0, 24, 24, 72)),
      ((0, 72, 24, 120), (72, 24, 96, 72)),
      ((24, 72, 72, 120), (24, 24, 72, 72)),
      ((0, 48, 96, 144), (96, 0, 192, 96))]"

fun spec_apply :: "image \<Rightarrow> (box \<times> box) list \<Rightarrow> image \<Rightarrow> error + image" where
  "spec_apply src [] canvas = Inr canvas"
| "spec_apply src ((s, d) # ps) canvas =
     (case crop src s of
        Inl e \<Rightarrow> Inl e
      | Inr sub \<Rightarrow>
          (case paste canvas sub d of
             Inl e \<Rightarrow> Inl e
           | Inr canvas' \<Rightarrow> spec_apply src ps canvas'))"

definition spec_convert :: "image \<Rightarrow> error + image" where
  "spec_convert src =
     (case Image_new (192, 96) (10, 10, 10) of
        Inl e \<Rightarrow> Inl e
      | Inr canvas \<Rightarrow> spec_apply src spec_table canvas)"

text \<open>The index of the destination box that holds canvas position \<open>(x, y)\<close>.\<close>

definition dest_index :: "int \<Rightarrow> int \<Rightarrow> nat" where
  "dest_index x y =
     (if 96 \<le> x then 9
      else if x < 24 then (if y < 24 then 3 else if y < 72 then 6 else 1)
      else if x < 72 then (if y < 24 then 4 else if y < 72 then 8 else 5)
      else (if y < 24 then 2 else if y < 72 then 7 else 0))"

text \<open>
  The pixel at canvas position \<open>(x, y)\<close> of the file \<open>converted.png\<close> that a run leaves;
  none when the run raised.
\<close>

definition output_pixel :: "string \<Rightarrow> filesystem \<Rightarrow> int \<Rightarrow> int \<Rightarrow> colour option" where
  "output_pixel path fs x y =
     (case main path fs of
        Inl e \<Rightarrow> None
      | Inr fs' \<Rightarrow>
          (case files fs' ''converted.png'' of
             Some (ImageFile fmt out) \<Rightarrow> pixel_at out x y
           | _ \<Rightarrow> None))"

text \<open>
  Concrete inputs for the closed theorems below: the fresh canvas, an RGB image that
  holds all ten source boxes, a palette image with the same pixels whose palette entry 0
  is (1,2,3), an RGB image and a palette image of 80 by 100, and a disk that holds them.
\<close>

definition blank_canvas :: image where
  "blank_canvas =
     \<lparr>xsize = 192, ysize = 96, pixels = (\<lambda>x y. (10, 10, 10)), zero_fill = (0, 0, 0)\<rparr>"

definition full_im :: image where
  "full_im =
     \<lparr>xsize = 96, ysize = 144, pixels = (\<lambda>x y. (x + 1, y + 1, 7)), zero_fill = (0, 0, 0)\<rparr>"

definition full_im_padded :: image where
  "full_im_padded =
     \<lparr>xsize = 96, ysize = 144,
      pixels = (\<lambda>x y. if 0 \<le> x \<and> x < 96 \<and> 0 \<le> y \<and> y < 144
                       then (x + 1, y + 1, 7) else (4, 5, 6)),
      zero_fill = (1, 2, 3)\<rparr>"

definition small_im :: image where
  "small_im =
     \<lparr>xsize = 80, ysize = 100, pixels = (\<lambda>x y. (x + 1, y + 1, 7)), zero_fill = (0, 0, 0)\<rparr>"

definition small_palette_im :: image where
  "small_palette_im =
     \<lparr>xsize = 80, ysize = 100, pixels = (\<lambda>x y. (x + 1, y + 1, 7)), zero_fill = (1, 2, 3)\<rparr>"

definition sample_fs :: filesystem where
  "sample_fs =
     \<lparr>files = [''tiles.png'' \<mapsto> ImageFile PNG full_im,
               ''padded.bmp'' \<mapsto> ImageFile BMP full_im_padded,
               ''small.png'' \<mapsto> ImageFile PNG small_im,
               ''small.gif'' \<mapsto> ImageFile GIF small_palette_im,
               ''converted.png'' \<mapsto> OtherFile],
      read_only = (\<lambda>p. p = ''tiles.png'')\<rparr>"

section \<open>Facts about the tables\<close>

lemmas box_defs = c_lor_def c_lol_def c_upr_def c_upl_def e_up_def e_lo_def e_ri_def e_le_def
  center_def retain_def fc_lor_def fc_lol_def fc_upr_def fc_upl_def fe_up_def fe_lo_def
  fe_ri_def fe_le_def fcenter_def fretain_def

lemma length_regions: "length regions = 10"
  by (simp add: regions_def)

lemma length_fregions: "length fregions = 10"
  by (simp add: fregions_def)

lemma length_chunks: "length chunks = 10"
  by (simp add: chunks_def)

lemma less_10_cases:
  "i < (10::nat) \<Longrightarrow>
   i = 0 \<or> i = 1 \<or> i = 2 \<or> i = 3 \<or> i = 4 \<or> i = 5 \<or> i = 6 \<or> i = 7 \<or> i = 8 \<or> i = 9"
  by arith

lemma upt_10: "[0..<10] = [0, 1, 2, 3, 4, 5, 6, 7, 8, 9]"
  by (simp add: upt_rec)

lemma fregions_disjoint:
  assumes "i < 10" "j < 10" "i \<noteq> j" "inside (fregions ! i) x y"
  shows "\<not> inside (fregions ! j) x y"
  using less_10_cases[OF assms(1)] less_10_cases[OF assms(2)] assms(3,4)
  by (elim disjE) (simp_all add: fregions_def box_defs inside_def)

lemma dest_index_less: "dest_index x y < 10"
  by (simp add: dest_index_def)

lemma dest_index_inside:
  assumes "0 \<le> x" "x < 192" "0 \<le> y" "y < 96"
  shows "inside (fregions ! dest_index x y) x y"
  using assms by (simp add: dest_index_def fregions_def box_defs inside_def)

lemma fregions_in_canvas:
  assumes "i < 10" "inside (fregions ! i) x y"
  shows "0 \<le> x \<and> x < 192 \<and> 0 \<le> y \<and> y < 96"
  using less_10_cases[OF assms(1)] assms(2)
  by (elim disjE) (simp_all add: fregions_def box_defs inside_def)

lemma matching_boxes:
  assumes "i < 10"
  shows "0 \<le> box_width (regions ! i) \<and> 0 \<le> box_height (regions ! i) \<and>
         box_width (fregions ! i) = box_width (regions ! i) \<and>
         box_height (fregions ! i) = box_height (regions ! i)"
  using less_10_cases[OF assms]
  by (elim disjE) (simp_all add: regions_def fregions_def box_defs box_width_def box_height_def)

section \<open>One crop and paste\<close>

lemma crop_Inr:
  assumes "0 \<le> box_width s" "0 \<le> box_height s"
  shows "crop im s =
         Inr \<lparr>xsize = box_width s, ysize = box_height s,
              pixels = (\<lambda>x y. if in_bounds im (x + box_left s) (y + box_top s)
                               then pixels im (x + box_left s) (y + box_top s)
                               else zero_fill im),
              zero_fill = zero_fill im\<rparr>"
proof -
  obtain l t r lo where s: "s = (l, t, r, lo)" by (cases s)
  show ?thesis using assms unfolding s
    by (simp add: crop_def box_width_def box_height_def box_left_def box_top_def cong: if_cong)
qed

lemma paste_Inr:
  assumes "box_width d = xsize chunk" "box_height d = ysize chunk"
  shows "paste c chunk d =
         Inr (c\<lparr>pixels := (\<lambda>x y. if inside d x y \<and> in_bounds c x y
                then pixels chunk (x - box_left d) (y - box_top d) else pixels c x y)\<rparr>)"
proof -
  obtain l t r lo where d: "d = (l, t, r, lo)" by (cases d)
  show ?thesis using assms unfolding d
    by (simp add: paste_def box_width_def box_height_def box_left_def box_top_def cong: if_cong)
qed

lemma crop_paste_match:
  assumes "0 \<le> box_width s" "0 \<le> box_height s"
    "box_width d = box_width s" "box_height d = box_height s"
  shows "crop_paste im s d c =
         Inr (c\<lparr>pixels := (\<lambda>x y. if inside d x y \<and> in_bounds c x y
                 then moved_pixel im s d x y else pixels c x y)\<rparr>)"
proof -
  let ?chunk = "\<lparr>xsize = box_width s, ysize = box_height s,
              pixels = (\<lambda>x y. if in_bounds im (x + box_left s) (y + box_top s)
                               then pixels im (x + box_left s) (y + box_top s)
                               else zero_fill im),
              zero_fill = zero_fill im\<rparr>"
  have "(\<lambda>x y. if inside d x y \<and> in_bounds c x y
           then pixels ?chunk (x - box_left d) (y - box_top d) else pixels c x y) =
        (\<lambda>x y. if inside d x y \<and> in_bounds c x y
           then moved_pixel im s d x y else pixels c x y)"
    by (intro ext) (simp add: moved_pixel_def)
  moreover have "paste c ?chunk d =
         Inr (c\<lparr>pixels := (\<lambda>x y. if inside d x y \<and> in_bounds c x y
                then pixels ?chunk (x - box_left d) (y - box_top d) else pixels c x y)\<rparr>)"
    by (rule paste_Inr) (simp_all add: assms)
  ultimately show ?thesis
    by (simp add: crop_paste_def crop_Inr[OF assms(1,2)])
qed

lemma step_eq:
  assumes "i < 10"
  shows "crop_paste im (regions ! i) (fregions ! i) c = Inr (stamp im i c)"
  using matching_boxes[OF assms] by (simp add: crop_paste_match stamp_def)

section \<open>The loop\<close>

lemma paste_loop_Cons:
  "i < 10 \<Longrightarrow> paste_loop im (i # is) c = paste_loop im is (stamp im i c)"
  by (simp add: length_regions length_fregions length_chunks step_eq)

lemma paste_loop_Cons_fail:
  "\<not> i < 10 \<Longrightarrow> paste_loop im (i # is) c = Inl IndexError"
  by (simp add: length_regions length_fregions length_chunks)

lemma paste_loop_indices:
  "paste_loop im is c = Inr c' \<Longrightarrow> \<forall>k \<in> set is. k < 10"
proof (induction "is" arbitrary: c)
  case Nil then show ?case by simp
next
  case (Cons j js)
  show ?case
  proof (cases "j < 10")
    case True
    with Cons show ?thesis by (simp only: paste_loop_Cons) auto
  next
    case False
    from Cons.prems(1) have False
      unfolding paste_loop_Cons_fail[OF False] by simp
    then show ?thesis ..
  qed
qed

lemma paste_loop_succeeds:
  "\<forall>k \<in> set is. k < 10 \<Longrightarrow>
   \<exists>c'. paste_loop im is c = Inr c' \<and> xsize c' = xsize c \<and> ysize c' = ysize c"
proof (induction "is" arbitrary: c)
  case Nil then show ?case by simp
next
  case (Cons j js)
  then have j: "j < 10" and js: "\<forall>k \<in> set js. k < 10" by simp_all
  from Cons.IH[OF js, of "stamp im j c"] show ?case
    by (simp only: paste_loop_Cons[OF j]) (simp add: stamp_def)
qed

lemma paste_loop_size:
  assumes "paste_loop im is c = Inr c'"
  shows "xsize c' = xsize c \<and> ysize c' = ysize c"
proof -
  from paste_loop_succeeds[OF paste_loop_indices[OF assms], of im c] assms
  show ?thesis by auto
qed

lemma paste_loop_outside:
  "paste_loop im is c = Inr c' \<Longrightarrow> \<forall>k \<in> set is. \<not> inside (fregions ! k) x y \<Longrightarrow>
   pixels c' x y = pixels c x y"
proof (induction "is" arbitrary: c)
  case Nil then show ?case by simp
next
  case (Cons j js)
  from paste_loop_indices[OF Cons.prems(1)] have j: "j < 10" by simp
  from Cons.prems(1) have run: "paste_loop im js (stamp im j c) = Inr c'"
    by (simp only: paste_loop_Cons[OF j])
  from Cons.prems(2) have "pixels (stamp im j c) x y = pixels c x y"
    by (simp add: stamp_def)
  with Cons.IH[OF run] Cons.prems(2) show ?case by simp
qed

lemma paste_loop_inside:
  "paste_loop im is c = Inr c' \<Longrightarrow> i \<in> set is \<Longrightarrow> inside (fregions ! i) x y \<Longrightarrow>
   in_bounds c x y \<Longrightarrow> pixels c' x y = moved_pixel im (regions ! i) (fregions ! i) x y"
proof (induction "is" arbitrary: c)
  case Nil then show ?case by simp
next
  case (Cons j js)
  from paste_loop_indices[OF Cons.prems(1)]
  have j: "j < 10" and js: "\<forall>k \<in> set js. k < 10" by simp_all
  from Cons.prems(1) have run: "paste_loop im js (stamp im j c) = Inr c'"
    by (simp only: paste_loop_Cons[OF j])
  have inb: "in_bounds (stamp im j c) x y"
    using Cons.prems(4) by (simp add: stamp_def in_bounds_def)
  show ?case
  proof (cases "i \<in> set js")
    case True
    from Cons.IH[OF run True Cons.prems(3) inb] show ?thesis .
  next
    case False
    with Cons.prems(2) have ij: "i = j" by simp
    have "\<forall>k \<in> set js. \<not> inside (fregions ! k) x y"
    proof
      fix k assume k: "k \<in> set js"
      with False have "i \<noteq> k" by auto
      with fregions_disjoint[of i k x y] j js k ij Cons.prems(3)
      show "\<not> inside (fregions ! k) x y" by simp
    qed
    from paste_loop_outside[OF run this]
    show ?thesis using ij Cons.prems(3,4) by (simp add: stamp_def)
  qed
qed

section \<open>The conversion and the run\<close>

lemma Image_new_final: "Image_new final_size muted = Inr blank_canvas"
  by (simp add: Image_new_def final_size_def muted_def blank_canvas_def)

lemma blank_canvas_simps:
  "xsize blank_canvas = 192" "ysize blank_canvas = 96" "pixels blank_canvas x y = (10, 10, 10)"
  by (simp_all add: blank_canvas_def)

lemma convert_eq:
  "convert im = paste_loop im [0..<10] blank_canvas"
  by (simp only: convert_def Image_new_final length_regions sum.case)

lemma convert_succeeds:
  "\<exists>out. convert im = Inr out \<and> xsize out = 192 \<and> ysize out = 96"
  using paste_loop_succeeds[of "[0..<10]" im blank_canvas]
  by (simp only: convert_eq) (simp add: blank_canvas_simps)

lemma convert_pixel:
  assumes "convert im = Inr out" "i < 10" "inside (fregions ! i) x y"
  shows "pixel_at out x y = Some (moved_pixel im (regions ! i) (fregions ! i) x y)"
proof -
  let ?c = blank_canvas
  from assms(1) have run: "paste_loop im [0..<10] ?c = Inr out"
    by (simp only: convert_eq)
  from fregions_in_canvas[OF assms(2,3)] have inb: "in_bounds ?c x y"
    by (simp add: in_bounds_def blank_canvas_simps)
  from paste_loop_size[OF run] inb have "in_bounds out x y"
    by (simp add: in_bounds_def)
  moreover from paste_loop_inside[OF run _ assms(3) inb] assms(2)
  have "pixels out x y = moved_pixel im (regions ! i) (fregions ! i) x y" by simp
  ultimately show ?thesis by (simp add: pixel_at_def)
qed

lemma save_converted:
  "\<not> read_only fs ''converted.png'' \<Longrightarrow>
   save im ''converted.png'' fs =
     Inr (fs\<lparr>files := (files fs)(''converted.png'' \<mapsto> ImageFile PNG im)\<rparr>)"
  by (simp add: save_def EXTENSION_def lower_def splitext_ext_def lower_char_def)

lemma main_eq:
  assumes "files fs path = Some (ImageFile fmt im)" "convert im = Inr out"
    "\<not> read_only fs ''converted.png''"
  shows "main path fs = Inr (fs\<lparr>files := (files fs)(''converted.png'' \<mapsto> ImageFile PNG out)\<rparr>)"
  using assms by (simp add: main_def Image_open_def save_converted)

section \<open>The region tables\<close>

text \<open>
  Claim C8. Each of the ten source boxes lies within the 96 by 144 coordinate space
  (\<open>0 \<le> left \<le> right \<le> 96\<close> and \<open>0 \<le> top \<le> bottom \<le> 144\<close>), and each of the
  ten destination boxes lies within the canvas, whose size is \<open>final_size\<close>, 192 by 96.
\<close>

theorem boxes_within_bounds:
  "(\<forall>b \<in> set regions. box_within b 96 144) \<and>
   (\<forall>b \<in> set fregions. box_within b (fst final_size) (snd final_size))"
  by (simp add: regions_def fregions_def box_defs box_within_def final_size_def)

theorem boxes_within_bounds_witness:
  "retain \<in> set regions \<and> box_within retain 96 144 \<and>
   fretain \<in> set fregions \<and> box_within fretain (fst final_size) (snd final_size)"
  using boxes_within_bounds by (simp add: regions_def fregions_def)

text \<open>
  Claim C10. For each index of the loop, the source box and the destination box have the
  same width and the same height; the crop has exactly the destination box's size, so the
  paste into the four-sided box returns a canvas and never reaches the size-mismatch
  error. This holds for every opened image and every canvas.
\<close>

theorem pair_sizes_match:
  assumes "i < length regions"
  shows "i < length fregions \<and>
         box_width (regions ! i) = box_width (fregions ! i) \<and>
         box_height (regions ! i) = box_height (fregions ! i) \<and>
         (\<exists>chunk out. crop start_im (regions ! i) = Inr chunk \<and>
            xsize chunk = box_width (fregions ! i) \<and>
            ysize chunk = box_height (fregions ! i) \<and>
            paste final_im chunk (fregions ! i) = Inr out)"
proof -
  from assms have i: "i < 10" by (simp add: length_regions)
  note m = matching_boxes[OF i]
  from m have c: "crop start_im (regions ! i) =
         Inr \<lparr>xsize = box_width (regions ! i), ysize = box_height (regions ! i),
              pixels = (\<lambda>x y. if in_bounds start_im (x + box_left (regions ! i)) (y + box_top (regions ! i))
                               then pixels start_im (x + box_left (regions ! i)) (y + box_top (regions ! i))
                               else zero_fill start_im),
              zero_fill = zero_fill start_im\<rparr>"
    by (intro crop_Inr) simp_all
  show ?thesis using i m by (simp add: c paste_Inr length_fregions)
qed

theorem pair_sizes_match_witness:
  "(9::nat) < length regions \<and> box_width (regions ! 9) = box_width (fregions ! 9) \<and>
   box_height (regions ! 9) = box_height (fregions ! 9) \<and>
   (\<exists>chunk out. crop full_im (regions ! 9) = Inr chunk \<and>
      paste blank_canvas chunk (fregions ! 9) = Inr out)"
proof -
  have h: "(9::nat) < length regions" by (simp add: regions_def)
  from pair_sizes_match[OF h, of full_im blank_canvas] h show ?thesis by blast
qed

text \<open>
  The loop over a list of valid indices is the specification's crop and paste over the
  pairs those indices select, in the same order.
\<close>

lemma paste_loop_spec_apply:
  "\<forall>k \<in> set is. k < 10 \<Longrightarrow>
   paste_loop im is c = spec_apply im (map (\<lambda>i. (regions ! i, fregions ! i)) is) c"
proof (induction "is" arbitrary: c)
  case Nil then show ?case by simp
next
  case (Cons j js)
  then have j: "j < 10" and js: "\<forall>k \<in> set js. k < 10" by simp_all
  show ?case
    by (simp add: Cons.IH[OF js] j length_regions length_fregions length_chunks
          crop_paste_def split: sum.splits)
qed

lemma zip_regions: "map (\<lambda>i. (regions ! i, fregions ! i)) [0..<10] = spec_table"
  by (simp add: upt_10 regions_def fregions_def box_defs spec_table_def)

text \<open>
  Claim C2. The two lists \<open>regions\<close> and \<open>fregions\<close>, paired position by position, are
  exactly the ten pairs of the specification's table in the table's order (pair 1 is
  (48,0,72,24) to (72,72,96,96), pair 10 is (0,48,96,144) to (96,0,192,96)), and the
  conversion is crop then paste for each pair in that order.
\<close>

theorem mapping_is_spec_table:
  "zip regions fregions = spec_table \<and> length regions = 10 \<and> length fregions = 10 \<and>
   convert start_im = spec_convert start_im"
proof -
  have "zip regions fregions = spec_table"
    by (simp add: regions_def fregions_def box_defs spec_table_def)
  moreover have "convert start_im = spec_convert start_im"
    using paste_loop_spec_apply[of "[0..<10]" start_im]
    by (simp add: convert_def spec_convert_def length_regions zip_regions final_size_def
          muted_def split: sum.splits)
  ultimately show ?thesis by (simp add: length_regions length_fregions)
qed

section \<open>What the conversion puts on the canvas\<close>

text \<open>
  A canvas position inside the destination box of index \<open>i\<close> corresponds, by its offset,
  to a position inside the source box of index \<open>i\<close>.
\<close>

lemma source_position:
  assumes "i < 10" "inside (fregions ! i) x y"
  shows "inside (regions ! i) (x - box_left (fregions ! i) + box_left (regions ! i))
           (y - box_top (fregions ! i) + box_top (regions ! i))"
  using less_10_cases[OF assms(1)] assms(2)
  by (elim disjE)
     (simp_all add: regions_def fregions_def box_defs inside_def box_left_def box_top_def)

lemma box_within_inside:
  assumes "box_within b w h" "inside b x y"
  shows "0 \<le> x \<and> x < w \<and> 0 \<le> y \<and> y < h"
proof -
  obtain l t r lo where b: "b = (l, t, r, lo)" by (cases b)
  show ?thesis using assms unfolding b by (simp add: box_within_def inside_def)
qed

text \<open>
  Claim C1. For every opened image that contains all ten source boxes, and for each of
  the ten pairs, the conversion returns a canvas on which every position inside the
  pair's destination box holds the pixel of the opened image at the same offset inside
  the pair's source box: the offset is carried over unchanged, nothing is scaled.
\<close>

theorem region_fidelity:
  assumes "\<forall>b \<in> set regions. box_within b (xsize start_im) (ysize start_im)"
    and "i < length regions"
    and "inside (fregions ! i) x y"
  shows "\<exists>out. convert start_im = Inr out \<and>
           inside (regions ! i) (x - box_left (fregions ! i) + box_left (regions ! i))
             (y - box_top (fregions ! i) + box_top (regions ! i)) \<and>
           pixel_at out x y =
             pixel_at start_im (x - box_left (fregions ! i) + box_left (regions ! i))
               (y - box_top (fregions ! i) + box_top (regions ! i)) \<and>
           pixel_at out x y \<noteq> None"
proof -
  let ?sx = "x - box_left (fregions ! i) + box_left (regions ! i)"
  let ?sy = "y - box_top (fregions ! i) + box_top (regions ! i)"
  from assms(2) have i: "i < 10" by (simp add: length_regions)
  from convert_succeeds obtain out where out: "convert start_im = Inr out" by blast
  from source_position[OF i assms(3)] have src: "inside (regions ! i) ?sx ?sy" .
  from assms(1,2) have "box_within (regions ! i) (xsize start_im) (ysize start_im)"
    by simp
  from box_within_inside[OF this src] have inb: "in_bounds start_im ?sx ?sy"
    by (simp add: in_bounds_def)
  from convert_pixel[OF out i assms(3)] inb
  have px: "pixel_at out x y = Some (pixels start_im ?sx ?sy)"
    by (simp add: moved_pixel_def)
  from inb have spx: "pixel_at start_im ?sx ?sy = Some (pixels start_im ?sx ?sy)"
    by (simp add: pixel_at_def)
  have "pixel_at out x y = pixel_at start_im ?sx ?sy"
    by (simp only: px spx)
  moreover have "pixel_at out x y \<noteq> None"
    by (simp only: px option.distinct not_False_eq_True)
  ultimately show ?thesis using out src by blast
qed

theorem region_fidelity_witness:
  "list_all (\<lambda>b. box_within b (xsize full_im) (ysize full_im)) regions \<and>
   (4::nat) < length regions \<and> inside (fregions ! 4) 30 5 \<and>
   (\<exists>out. convert full_im = Inr out \<and> inside (regions ! 4) 30 125 \<and>
      pixel_at out 30 5 = pixel_at full_im 30 125 \<and> pixel_at out 30 5 = Some (31, 126, 7))"
proof -
  have h1: "\<forall>b \<in> set regions. box_within b (xsize full_im) (ysize full_im)"
    by (simp add: regions_def box_defs box_within_def full_im_def)
  have h2: "(4::nat) < length regions" by (simp add: regions_def)
  have h3: "inside (fregions ! 4) 30 5" by (simp add: fregions_def box_defs inside_def)
  have p: "pixel_at full_im 30 125 = Some (31, 126, 7)"
    by (simp add: pixel_at_def in_bounds_def full_im_def)
  from region_fidelity[OF h1 h2 h3] obtain out where
    "convert full_im = Inr out"
    "pixel_at out 30 5 =
       pixel_at full_im (30 - box_left (fregions ! 4) + box_left (regions ! 4))
         (5 - box_top (fregions ! 4) + box_top (regions ! 4))"
    by blast
  then have "convert full_im = Inr out \<and> pixel_at out 30 5 = pixel_at full_im 30 125"
    by (simp add: regions_def fregions_def box_defs box_left_def box_top_def)
  moreover have "inside (regions ! 4) 30 125"
    by (simp add: regions_def box_defs inside_def)
  moreover from h1 have "list_all (\<lambda>b. box_within b (xsize full_im) (ysize full_im)) regions"
    by (simp only: list_all_iff)
  ultimately show ?thesis using p h2 h3 by auto
qed

text \<open>
  Claim C9. Every position of the 192 by 96 canvas lies inside exactly one of the ten
  destination boxes, so the boxes are pairwise disjoint and cover the canvas. Hence, after
  the loop, the pixel at every position is the one that the single paste covering it put
  there: no later paste has overwritten it, and it does not depend on what the canvas held
  before the loop, so nothing of the fill is kept. This is stated for the loop on any
  canvas of the final size and for the conversion itself.
\<close>

theorem destinations_partition_canvas:
  assumes "in_bounds c x y" "xsize c = fst final_size" "ysize c = snd final_size"
  shows "(\<exists>!i. i < length fregions \<and> inside (fregions ! i) x y) \<and>
         (\<exists>out i. paste_loop start_im [0..<length regions] c = Inr out \<and>
            i < length regions \<and> inside (fregions ! i) x y \<and>
            pixel_at out x y = Some (moved_pixel start_im (regions ! i) (fregions ! i) x y)) \<and>
         (\<exists>out i. convert start_im = Inr out \<and>
            i < length regions \<and> inside (fregions ! i) x y \<and>
            pixel_at out x y = Some (moved_pixel start_im (regions ! i) (fregions ! i) x y))"
proof -
  from assms have xy: "0 \<le> x" "x < 192" "0 \<le> y" "y < 96"
    by (simp_all add: in_bounds_def final_size_def)
  let ?i = "dest_index x y"
  have i: "?i < 10" by (rule dest_index_less)
  have ins: "inside (fregions ! ?i) x y" by (rule dest_index_inside[OF xy])
  have uniq: "\<exists>!i. i < length fregions \<and> inside (fregions ! i) x y"
  proof (rule ex1I[of _ ?i])
    show "?i < length fregions \<and> inside (fregions ! ?i) x y"
      using i ins by (simp add: length_fregions)
  next
    fix j assume "j < length fregions \<and> inside (fregions ! j) x y"
    then have j: "j < 10" and insj: "inside (fregions ! j) x y"
      by (simp_all add: length_fregions)
    show "j = ?i"
    proof (rule ccontr)
      assume "j \<noteq> ?i"
      from fregions_disjoint[OF j i this insj] ins show False by simp
    qed
  qed
  have "\<forall>k \<in> set [0..<10]. k < 10" by simp
  from paste_loop_succeeds[OF this, of start_im c] obtain out where
    run: "paste_loop start_im [0..<10] c = Inr out"
    and sz: "xsize out = xsize c" "ysize out = ysize c" by auto
  from i have mem: "?i \<in> set [0..<10]" by simp
  from paste_loop_inside[OF run mem ins assms(1)] sz assms(1)
  have "pixel_at out x y = Some (moved_pixel start_im (regions ! ?i) (fregions ! ?i) x y)"
    by (simp add: pixel_at_def in_bounds_def)
  with run i ins
  have general: "\<exists>out i. paste_loop start_im [0..<length regions] c = Inr out \<and>
            i < length regions \<and> inside (fregions ! i) x y \<and>
            pixel_at out x y = Some (moved_pixel start_im (regions ! i) (fregions ! i) x y)"
    by (auto simp add: length_regions)
  from convert_succeeds obtain out' where out': "convert start_im = Inr out'" by blast
  from convert_pixel[OF out' i ins] out' i ins
  have "\<exists>out i. convert start_im = Inr out \<and>
            i < length regions \<and> inside (fregions ! i) x y \<and>
            pixel_at out x y = Some (moved_pixel start_im (regions ! i) (fregions ! i) x y)"
    by (auto simp add: length_regions)
  with uniq general show ?thesis by blast
qed

theorem destinations_partition_canvas_witness:
  "in_bounds blank_canvas 100 50 \<and> xsize blank_canvas = fst final_size \<and>
   ysize blank_canvas = snd final_size \<and>
   (\<exists>!i. i < length fregions \<and> inside (fregions ! i) 100 50) \<and>
   (\<exists>out i. convert full_im = Inr out \<and> i < length regions \<and> inside (fregions ! i) 100 50 \<and>
      pixel_at out 100 50 = Some (moved_pixel full_im (regions ! i) (fregions ! i) 100 50))"
proof -
  have h: "in_bounds blank_canvas 100 50" "xsize blank_canvas = fst final_size"
    "ysize blank_canvas = snd final_size"
    by (simp_all add: blank_canvas_def in_bounds_def final_size_def)
  from destinations_partition_canvas[OF h, of full_im] h show ?thesis by blast
qed

section \<open>The run and its output file\<close>

lemma sample_fs_files:
  "files sample_fs ''tiles.png'' = Some (ImageFile PNG full_im)"
  "files sample_fs ''padded.bmp'' = Some (ImageFile BMP full_im_padded)"
  "files sample_fs ''small.png'' = Some (ImageFile PNG small_im)"
  "files sample_fs ''converted.png'' = Some OtherFile"
  "\<not> read_only sample_fs ''converted.png''"
  "files sample_fs ''small.gif'' = Some (ImageFile GIF small_palette_im)"
  by (simp_all add: sample_fs_def)

text \<open>
  Claim C3. Whenever the chosen path holds an image, of whatever size, and
  \<open>converted.png\<close> can be written, the run ends without error and leaves the file system
  as it was except that \<open>converted.png\<close> now holds, as a PNG, the canvas of the
  conversion, which is exactly 192 by 96. Nothing is assumed about what \<open>converted.png\<close>
  held before: it is replaced.
\<close>

theorem output_file:
  assumes "files fs path = Some (ImageFile fmt start_im)"
    and "\<not> read_only fs ''converted.png''"
  shows "\<exists>out. convert start_im = Inr out \<and>
           (xsize out, ysize out) = (192, 96) \<and>
           main path fs =
             Inr (fs\<lparr>files := (files fs)(''converted.png'' \<mapsto> ImageFile PNG out)\<rparr>)"
proof -
  from convert_succeeds obtain out where
    out: "convert start_im = Inr out" "xsize out = 192" "ysize out = 96" by blast
  from main_eq[OF assms(1) out(1) assms(2)] out show ?thesis by simp
qed

theorem output_file_witness:
  "files sample_fs ''tiles.png'' = Some (ImageFile PNG full_im) \<and>
   \<not> read_only sample_fs ''converted.png'' \<and>
   files sample_fs ''converted.png'' = Some OtherFile \<and>
   (\<exists>out. convert full_im = Inr out \<and> (xsize out, ysize out) = (192, 96) \<and>
      main ''tiles.png'' sample_fs =
        Inr (sample_fs\<lparr>files := (files sample_fs)(''converted.png'' \<mapsto> ImageFile PNG out)\<rparr>))"
  using output_file[OF sample_fs_files(1) sample_fs_files(5)] sample_fs_files
  by simp

text \<open>
  For an image that holds all ten source boxes, the loop reads nothing but in-bounds pixels:
  another image with the same pixel at every position, and none at the same positions,
  gives the same canvas after every iteration, whatever its zero fill is.
\<close>

lemma stamp_cong:
  assumes "\<forall>x y. pixel_at a x y = pixel_at b x y"
    and "\<forall>s \<in> set regions. box_within s (xsize a) (ysize a)"
    and "i < 10"
  shows "stamp a i c = stamp b i c"
proof -
  have same: "moved_pixel a (regions ! i) (fregions ! i) x y =
              moved_pixel b (regions ! i) (fregions ! i) x y"
    if ins: "inside (fregions ! i) x y" for x y
  proof -
    let ?sx = "x - box_left (fregions ! i) + box_left (regions ! i)"
    let ?sy = "y - box_top (fregions ! i) + box_top (regions ! i)"
    from assms(2,3) have "box_within (regions ! i) (xsize a) (ysize a)"
      by (simp add: length_regions)
    from box_within_inside[OF this source_position[OF assms(3) ins]]
    have ina: "in_bounds a ?sx ?sy" by (simp add: in_bounds_def)
    with assms(1)[rule_format, of ?sx ?sy]
    have "in_bounds b ?sx ?sy \<and> pixels a ?sx ?sy = pixels b ?sx ?sy"
      by (auto simp add: pixel_at_def split: if_splits)
    with ina show ?thesis by (simp add: moved_pixel_def)
  qed
  have "(\<lambda>x y. if inside (fregions ! i) x y \<and> in_bounds c x y
               then moved_pixel a (regions ! i) (fregions ! i) x y else pixels c x y) =
        (\<lambda>x y. if inside (fregions ! i) x y \<and> in_bounds c x y
               then moved_pixel b (regions ! i) (fregions ! i) x y else pixels c x y)"
    by (intro ext) (simp add: same)
  then show ?thesis by (simp add: stamp_def)
qed

lemma paste_loop_cong:
  assumes "\<forall>x y. pixel_at a x y = pixel_at b x y"
    and "\<forall>s \<in> set regions. box_within s (xsize a) (ysize a)"
  shows "paste_loop a is c = paste_loop b is c"
proof (induction "is" arbitrary: c)
  case Nil
  show ?case by simp
next
  case (Cons j js)
  show ?case
  proof (cases "j < 10")
    case True
    show ?thesis
      by (simp only: paste_loop_Cons[OF True] stamp_cong[OF assms True] Cons.IH)
  next
    case False
    show ?thesis by (simp only: paste_loop_Cons_fail[OF False])
  qed
qed

lemma convert_cong:
  assumes "\<forall>x y. pixel_at a x y = pixel_at b x y"
    and "\<forall>s \<in> set regions. box_within s (xsize a) (ysize a)"
  shows "convert a = convert b"
  by (simp only: convert_eq paste_loop_cong[OF assms])

text \<open>
  Claim C7. For a valid input image, one that holds all ten source boxes, two runs of the
  conversion write the same canvas. Run again from the file system that the first run
  left, the conversion of the same file writes the same canvas again (provided the input
  is not \<open>converted.png\<close> itself, which the first run has replaced). And the canvas is a
  function of the decoded pixels only: a run from another file system, on another path, on
  a file that holds the same decoded pixels in another format or another mode, writes the
  same canvas as well.
\<close>

theorem conversion_deterministic:
  assumes "files fs1 p1 = Some (ImageFile f1 a)" "files fs2 p2 = Some (ImageFile f2 b)"
    and "\<forall>s \<in> set regions. box_within s (xsize a) (ysize a)"
    and "\<forall>x y. pixel_at a x y = pixel_at b x y"
    and "\<not> read_only fs1 ''converted.png''" "\<not> read_only fs2 ''converted.png''"
  shows "\<exists>out.
           main p1 fs1 =
             Inr (fs1\<lparr>files := (files fs1)(''converted.png'' \<mapsto> ImageFile PNG out)\<rparr>) \<and>
           main p2 fs2 =
             Inr (fs2\<lparr>files := (files fs2)(''converted.png'' \<mapsto> ImageFile PNG out)\<rparr>) \<and>
           (p1 \<noteq> ''converted.png'' \<longrightarrow>
              main p1 (fs1\<lparr>files := (files fs1)(''converted.png'' \<mapsto> ImageFile PNG out)\<rparr>) =
                Inr (fs1\<lparr>files := (files fs1)(''converted.png'' \<mapsto> ImageFile PNG out)\<rparr>))"
proof -
  from convert_succeeds obtain out where out: "convert a = Inr out" by blast
  with convert_cong[OF assms(4,3)] have out': "convert b = Inr out" by simp
  let ?fs1' = "fs1\<lparr>files := (files fs1)(''converted.png'' \<mapsto> ImageFile PNG out)\<rparr>"
  have again: "main p1 ?fs1' = Inr ?fs1'" if "p1 \<noteq> ''converted.png''"
  proof -
    from that assms(1) have f: "files ?fs1' p1 = Some (ImageFile f1 a)" by simp
    from assms(5) have w: "\<not> read_only ?fs1' ''converted.png''" by simp
    from main_eq[OF f out w] show ?thesis by simp
  qed
  from main_eq[OF assms(1) out assms(5)] main_eq[OF assms(2) out' assms(6)] again
  show ?thesis by blast
qed

lemma full_im_padded_same: "pixel_at full_im x y = pixel_at full_im_padded x y"
  by (simp add: pixel_at_def in_bounds_def full_im_def full_im_padded_def)

theorem conversion_deterministic_witness:
  "files sample_fs ''tiles.png'' = Some (ImageFile PNG full_im) \<and>
   files sample_fs ''padded.bmp'' = Some (ImageFile BMP full_im_padded) \<and>
   list_all (\<lambda>s. box_within s (xsize full_im) (ysize full_im)) regions \<and>
   (\<forall>x y. pixel_at full_im x y = pixel_at full_im_padded x y) \<and>
   zero_fill full_im \<noteq> zero_fill full_im_padded \<and>
   \<not> read_only sample_fs ''converted.png'' \<and>
   ''tiles.png'' \<noteq> ''converted.png'' \<and>
   (\<exists>out.
      main ''tiles.png'' sample_fs =
        Inr (sample_fs\<lparr>files := (files sample_fs)(''converted.png'' \<mapsto> ImageFile PNG out)\<rparr>) \<and>
      main ''padded.bmp'' sample_fs =
        Inr (sample_fs\<lparr>files := (files sample_fs)(''converted.png'' \<mapsto> ImageFile PNG out)\<rparr>) \<and>
      main ''tiles.png''
          (sample_fs\<lparr>files := (files sample_fs)(''converted.png'' \<mapsto> ImageFile PNG out)\<rparr>) =
        Inr (sample_fs\<lparr>files := (files sample_fs)(''converted.png'' \<mapsto> ImageFile PNG out)\<rparr>))"
proof -
  have v: "\<forall>s \<in> set regions. box_within s (xsize full_im) (ysize full_im)"
    by (simp add: regions_def box_defs box_within_def full_im_def)
  then have v': "list_all (\<lambda>s. box_within s (xsize full_im) (ysize full_im)) regions"
    by (simp only: list_all_iff)
  have h: "\<forall>x y. pixel_at full_im x y = pixel_at full_im_padded x y"
    by (simp add: full_im_padded_same)
  have d: "zero_fill full_im \<noteq> zero_fill full_im_padded"
    by (simp add: full_im_def full_im_padded_def)
  have n: "''tiles.png'' \<noteq> ''converted.png''" by simp
  from conversion_deterministic[OF sample_fs_files(1) sample_fs_files(2) v h
      sample_fs_files(5) sample_fs_files(5)] n
  have "\<exists>out.
      main ''tiles.png'' sample_fs =
        Inr (sample_fs\<lparr>files := (files sample_fs)(''converted.png'' \<mapsto> ImageFile PNG out)\<rparr>) \<and>
      main ''padded.bmp'' sample_fs =
        Inr (sample_fs\<lparr>files := (files sample_fs)(''converted.png'' \<mapsto> ImageFile PNG out)\<rparr>) \<and>
      main ''tiles.png''
          (sample_fs\<lparr>files := (files sample_fs)(''converted.png'' \<mapsto> ImageFile PNG out)\<rparr>) =
        Inr (sample_fs\<lparr>files := (files sample_fs)(''converted.png'' \<mapsto> ImageFile PNG out)\<rparr>)"
    by blast
  with v' h d n sample_fs_files(1,2,5) show ?thesis by blast
qed

section \<open>Images smaller than the source boxes\<close>

lemma output_pixel_eq:
  assumes "files fs path = Some (ImageFile fmt im)" "convert im = Inr out"
    "\<not> read_only fs ''converted.png''"
  shows "output_pixel path fs x y = pixel_at out x y"
  by (simp add: output_pixel_def main_eq[OF assms])

text \<open>
  Claim C5 says that an image smaller than 96 by 144 makes the conversion fail with an
  error. It does not: \<open>crop\<close> accepts a box that reaches outside the image and fills the
  part outside with the zero pixel of the image's mode, and the script checks no size. On
  the 80 by 100 RGB image \<open>small_im\<close> the run ends without error; in the written file,
  position (0,72) holds the source pixel of position (72,0), and position (8,72), whose
  source position (80,0) is outside the image, holds (0,0,0).
\<close>

theorem undersized_image_counterexample:
  "files sample_fs ''small.png'' = Some (ImageFile PNG small_im) \<and>
   xsize small_im < 96 \<and> ysize small_im < 144 \<and>
   \<not> isl (main ''small.png'' sample_fs) \<and>
   output_pixel ''small.png'' sample_fs 0 72 = Some (73, 1, 7) \<and>
   output_pixel ''small.png'' sample_fs 8 72 = Some (0, 0, 0)"
proof -
  from convert_succeeds obtain out where out: "convert small_im = Inr out" by blast
  note f = sample_fs_files(3) and w = sample_fs_files(5)
  have i: "(1::nat) < 10" by simp
  have "inside (fregions ! 1) 0 72" "inside (fregions ! 1) 8 72"
    by (simp_all add: fregions_def box_defs inside_def)
  from convert_pixel[OF out i this(1)] convert_pixel[OF out i this(2)]
  have "pixel_at out 0 72 = Some (73, 1, 7)" "pixel_at out 8 72 = Some (0, 0, 0)"
    by (simp_all add: moved_pixel_def regions_def fregions_def box_defs box_left_def
          box_top_def small_im_def in_bounds_def)
  then have "output_pixel ''small.png'' sample_fs 0 72 = Some (73, 1, 7)"
    "output_pixel ''small.png'' sample_fs 8 72 = Some (0, 0, 0)"
    by (simp_all only: output_pixel_eq[OF f out w])
  moreover have "\<not> isl (main ''small.png'' sample_fs)"
    by (simp add: main_eq[OF f out w])
  moreover have "xsize small_im < 96" "ysize small_im < 144"
    by (simp_all add: small_im_def)
  ultimately show ?thesis using f by simp
qed

text \<open>
  Claim C5 as amended. For an image smaller than 96 by 144 the run does not fail: it
  writes the 192 by 96 canvas to \<open>converted.png\<close>, and every position inside a
  destination box holds the image's pixel at the same offset inside the source box where
  that source position is inside the image, and where it is outside, the zero pixel of
  the image's own mode as the paste converts it to RGB: (0,0,0) for an RGB image, entry 0
  of the palette for a palette image, white for a CMYK image.
\<close>

theorem undersized_image_zero_filled:
  assumes "xsize start_im < 96 \<or> ysize start_im < 144"
    and "files fs path = Some (ImageFile fmt start_im)"
    and "\<not> read_only fs ''converted.png''"
    and "i < length regions" "inside (fregions ! i) x y"
  shows "\<exists>out. main path fs =
             Inr (fs\<lparr>files := (files fs)(''converted.png'' \<mapsto> ImageFile PNG out)\<rparr>) \<and>
           (xsize out, ysize out) = (192, 96) \<and>
           pixel_at out x y =
             Some (if in_bounds start_im (x - box_left (fregions ! i) + box_left (regions ! i))
                        (y - box_top (fregions ! i) + box_top (regions ! i))
                   then pixels start_im (x - box_left (fregions ! i) + box_left (regions ! i))
                          (y - box_top (fregions ! i) + box_top (regions ! i))
                   else zero_fill start_im)"
proof -
  from assms(4) have i: "i < 10" by (simp add: length_regions)
  from convert_succeeds obtain out where
    out: "convert start_im = Inr out" "xsize out = 192" "ysize out = 96" by blast
  from convert_pixel[OF out(1) i assms(5)]
  have "pixel_at out x y =
             Some (if in_bounds start_im (x - box_left (fregions ! i) + box_left (regions ! i))
                        (y - box_top (fregions ! i) + box_top (regions ! i))
                   then pixels start_im (x - box_left (fregions ! i) + box_left (regions ! i))
                          (y - box_top (fregions ! i) + box_top (regions ! i))
                   else zero_fill start_im)"
    by (simp add: moved_pixel_def)
  with main_eq[OF assms(2) out(1) assms(3)] out(2,3) show ?thesis
    by (intro exI[of _ out]) simp
qed

theorem undersized_image_zero_filled_witness:
  "xsize small_palette_im < 96 \<and>
   files sample_fs ''small.gif'' = Some (ImageFile GIF small_palette_im) \<and>
   \<not> read_only sample_fs ''converted.png'' \<and>
   (1::nat) < length regions \<and> inside (fregions ! 1) 8 72 \<and>
   \<not> in_bounds small_palette_im 80 0 \<and> zero_fill small_palette_im = (1, 2, 3) \<and>
   (\<exists>out. main ''small.gif'' sample_fs =
        Inr (sample_fs\<lparr>files := (files sample_fs)(''converted.png'' \<mapsto> ImageFile PNG out)\<rparr>) \<and>
      (xsize out, ysize out) = (192, 96) \<and> pixel_at out 8 72 = Some (1, 2, 3))"
proof -
  have h1: "xsize small_palette_im < 96 \<or> ysize small_palette_im < 144"
    by (simp add: small_palette_im_def)
  have h4: "(1::nat) < length regions" by (simp add: regions_def)
  have h5: "inside (fregions ! 1) 8 72" by (simp add: fregions_def box_defs inside_def)
  have n: "\<not> in_bounds small_palette_im 80 0"
    by (simp add: in_bounds_def small_palette_im_def)
  have z: "zero_fill small_palette_im = (1, 2, 3)" by (simp add: small_palette_im_def)
  have pos: "8 - box_left (fregions ! 1) + box_left (regions ! 1) = 80"
    "72 - box_top (fregions ! 1) + box_top (regions ! 1) = 0"
    by (simp_all add: regions_def fregions_def box_defs box_left_def box_top_def)
  from undersized_image_zero_filled[OF h1 sample_fs_files(6) sample_fs_files(5) h4 h5]
  have "\<exists>out. main ''small.gif'' sample_fs =
        Inr (sample_fs\<lparr>files := (files sample_fs)(''converted.png'' \<mapsto> ImageFile PNG out)\<rparr>) \<and>
      (xsize out, ysize out) = (192, 96) \<and> pixel_at out 8 72 = Some (1, 2, 3)"
    by (simp only: pos n if_False z)
  moreover have "xsize small_palette_im < 96" by (simp add: small_palette_im_def)
  ultimately show ?thesis using sample_fs_files(6) sample_fs_files(5) h4 h5 n z by blast
qed

section \<open>Where the paste puts the crop\<close>




end
